theory Spec2Isabelle
  imports Main
begin

section \<open>Pagination markup (UIComponents.createPagination)\<close>

text \<open>
  \<open>createPagination\<close> builds its markup by appending one template string after another.
  The model keeps one list element per appended string, in the order of the appends; the
  constructors record what the templates interpolate:
  \<^item> \<open>PrevBtn disabled target\<close>: the Previous button, \<open>goToPage(currentPage - 1)\<close>;
  \<^item> \<open>EdgeBtn page\<close>: the button for page 1 or for the last page outside the window
    (\<open>class="page-btn"\<close>, never active);
  \<^item> \<open>Dots\<close>: \<open><span class="page-dots">...</span>\<close>;
  \<^item> \<open>NumBtn active page\<close>: a button of the loop over the window;
  \<^item> \<open>NextBtn disabled target\<close>: the Next button, \<open>goToPage(currentPage + 1)\<close>.
  Page numbers are integers; \<open>Math.floor(maxVisible / 2)\<close> is integer division.
\<close>

datatype page_el =
    PrevBtn bool int
  | EdgeBtn int
  | Dots
  | NumBtn bool int
  | NextBtn bool int

definition maxVisible :: int where
  "maxVisible = 5"

text \<open>Lines 347 to 352: the first and the last page number of the window.\<close>

definition page_window :: "int \<Rightarrow> int \<Rightarrow> int \<times> int" where
  "page_window currentPage totalPages =
     (let start = max 1 (currentPage - maxVisible div 2);
          end' = min totalPages (start + maxVisible - 1);
          start = (if end' - start + 1 < maxVisible
                   then max 1 (end' - maxVisible + 1) else start)
      in (start, end'))"

text \<open>The loop \<open>for (let i = start; i <= end; i++)\<close>.\<close>

function page_buttons :: "int \<Rightarrow> int \<Rightarrow> int \<Rightarrow> page_el list" where
  "page_buttons currentPage i end' =
     (if i \<le> end'
      then NumBtn (i = currentPage) i # page_buttons currentPage (i + 1) end'
      else [])"
  by pat_completeness auto
termination
  by (relation "measure (\<lambda>(c, i, e). nat (e + 1 - i))") auto

declare page_buttons.simps [simp del]

definition createPagination :: "int \<Rightarrow> int \<Rightarrow> page_el list" where
  "createPagination currentPage totalPages =
     (case page_window currentPage totalPages of (start, end') \<Rightarrow>
        [PrevBtn (currentPage = 1) (currentPage - 1)]
        @ (if start > 1
           then EdgeBtn 1 # (if start > 2 then [Dots] else [])
           else [])
        @ page_buttons currentPage start end'
        @ (if end' < totalPages
           then (if end' < totalPages - 1 then [Dots] else []) @ [EdgeBtn totalPages]
           else [])
        @ [NextBtn (currentPage = totalPages) (currentPage + 1)])"

text \<open>Observations of the markup: the page numbers of the window's buttons, and what
  stands before the first and after the last of them.\<close>

fun is_NumBtn :: "page_el \<Rightarrow> bool" where
  "is_NumBtn (NumBtn a p) = True"
| "is_NumBtn _ = False"

fun window_pages :: "page_el list \<Rightarrow> int list" where
  "window_pages [] = []"
| "window_pages (NumBtn a p # es) = p # window_pages es"
| "window_pages (e # es) = window_pages es"

definition before_window :: "page_el list \<Rightarrow> page_el list" where
  "before_window es = takeWhile (\<lambda>e. \<not> is_NumBtn e) es"

definition after_window :: "page_el list \<Rightarrow> page_el list" where
  "after_window es = rev (takeWhile (\<lambda>e. \<not> is_NumBtn e) (rev es))"

section \<open>Data model\<close>

text \<open>
  JavaScript values that travel in requests are numbers and strings; numbers are modelled
  as integers. An object literal is the list of its properties in insertion order.
  Assigning a property that exists keeps its position, a new one goes to the end; the
  spread \<open>{...source}\<close> inside a literal assigns the source's properties in order.
\<close>

datatype jsval = Num int | Str string

type_synonym js_object = "(string \<times> jsval) list"

fun obj_set :: "string \<Rightarrow> jsval \<Rightarrow> js_object \<Rightarrow> js_object" where
  "obj_set k v [] = [(k, v)]"
| "obj_set k v ((k', v') # kvs) =
     (if k' = k then (k, v) # kvs else (k', v') # obj_set k v kvs)"

definition spread :: "js_object \<Rightarrow> js_object \<Rightarrow> js_object" where
  "spread target source = foldl (\<lambda>obj (k, v). obj_set k v obj) target source"

definition ITEMS_PER_PAGE :: int where
  "ITEMS_PER_PAGE = 12"

text \<open>The static fields of \<open>PhotoGallery\<close>. \<open>photos\<close> is not declared by the class: it is
  undefined (\<open>None\<close>) until \<open>loadPhotos\<close> first assigns it.\<close>

record filters =
  search :: string
  sort_f :: string
  location :: string
  minRating :: int

datatype photo = Photo js_object

record photo_gallery =
  currentPage :: int
  totalPages :: int
  filters :: filters
  photos :: "photo list option"

definition initial_gallery :: photo_gallery where
  "initial_gallery =
     \<lparr>currentPage = 1, totalPages = 1,
      filters = \<lparr>search = [], sort_f = ''newest'', location = ''all'', minRating = 0\<rparr>,
      photos = None\<rparr>"

text \<open>The body of a reply to \<open>GET /photos\<close>, at the shape the client reads: every field
  may be missing (\<open>None\<close>).\<close>

record pagination_info =
  pages :: "int option"
  total :: "int option"

record photos_reply =
  reply_photos :: "photo list option"
  reply_pagination :: "pagination_info option"

record user =
  user_id :: int
  username :: string
  role :: string

text \<open>
  Thrown values: \<open>NetworkFailure\<close> is the rejection of \<open>fetch\<close>, \<open>HttpError status\<close> is
  \<open>new Error(`HTTP ${response.status}`)\<close>, \<open>ErrorMsg text\<close> is \<open>new Error(text)\<close>,
  \<open>JsonSyntaxError\<close> is what \<open>response.json()\<close> and \<open>JSON.parse\<close> raise on text that is
  not JSON, \<open>TypeError\<close> is a property read on \<open>undefined\<close>, and \<open>AssignmentError\<close>
  stands for a failure of the statistics statement of \<open>loadPhotos\<close> (see there).
\<close>

datatype error =
    NetworkFailure
  | HttpError int
  | ErrorMsg string
  | JsonSyntaxError
  | TypeError
  | AssignmentError

text \<open>What the network does with one \<open>fetch\<close>: the promise rejects, or a response
  arrives with a status and a body that parses as JSON (\<open>Some\<close>) or does not.\<close>

datatype 'b fetch_outcome = Rejected | Responded int "'b option"

datatype http_method = GET | POST

text \<open>The endpoints built by the services: \<open>'/photos'\<close>, \<open>`/photos/${photoId}/comments`\<close>
  and \<open>`/photos/${photoId}/rate`\<close>.\<close>

datatype endpoint = Photos | PhotoComments jsval | PhotoRate jsval

record request =
  req_method :: http_method
  req_endpoint :: endpoint
  req_query :: js_object
  req_body :: "js_object option"

datatype console_entry =
    ApiGetError endpoint error
  | ApiPostError endpoint error
  | LoadPhotosError error

text \<open>
  The parts of the page the gallery touches. An element that \<open>getElementById\<close> does not
  find is \<open>None\<close>. \<open>globalSearch\<close> holds the value of the search input, \<open>galleryGrid\<close> and
  \<open>paginationEl\<close> what was last written into the two containers, \<open>notification\<close> the
  message and type of the one notification \<open>showNotification\<close> leaves on the page (its
  removal after five seconds is not modelled), \<open>scroll\<close> the window's scroll position.
\<close>

datatype grid_markup = Unrendered | NoPhotosNotice | Cards "photo list"

record pagination_el =
  display :: string
  innerHTML :: "page_el list"

record dom_state =
  globalSearch :: "string option"
  galleryGrid :: "grid_markup option"
  paginationEl :: "pagination_el option"
  notification :: "(string \<times> string) option"
  scroll :: "int \<times> int"

text \<open>Everything the modelled code reads or writes: the gallery's fields,
  \<open>appState.currentUser\<close>, \<open>localStorage\<close>, the page, the requests handed to \<open>fetch\<close> so
  far (oldest first) and the console.\<close>

record world =
  gallery :: photo_gallery
  currentUser :: "user option"
  localStorage :: "string \<rightharpoonup> string"
  document :: dom_state
  network :: "request list"
  console :: "console_entry list"

section \<open>ApiService and PhotoService\<close>

text \<open>
  An \<open>await\<close> is modelled as a call that returns: the outcome of the one \<open>fetch\<close> an
  operation issues is an argument of the operation. \<open>fetch\<close> records the request and
  hands the outcome back. The query string and the JSON text of a body are kept as the
  objects they are made from.
\<close>

definition fetch ::
  "'b fetch_outcome \<Rightarrow> request \<Rightarrow> world \<Rightarrow> world \<times> (error + int \<times> 'b option)" where
  "fetch outcome req w =
     (w\<lparr>network := network w @ [req]\<rparr>,
      case outcome of
        Rejected \<Rightarrow> Inl NetworkFailure
      | Responded status json \<Rightarrow> Inr (status, json))"

definition response_ok :: "int \<Rightarrow> bool" where
  "response_ok status = (200 \<le> status \<and> status \<le> 299)"

definition ApiService_get ::
  "'b fetch_outcome \<Rightarrow> endpoint \<Rightarrow> js_object \<Rightarrow> world \<Rightarrow> world \<times> (error + 'b)" where
  "ApiService_get outcome ep params w =
     (case fetch outcome
             \<lparr>req_method = GET, req_endpoint = ep, req_query = params, req_body = None\<rparr> w of
        (w1, tried) \<Rightarrow>
          (case (case tried of
                   Inl e \<Rightarrow> Inl e
                 | Inr (status, json) \<Rightarrow>
                     if \<not> response_ok status then Inl (HttpError status)
                     else (case json of None \<Rightarrow> Inl JsonSyntaxError | Some r \<Rightarrow> Inr r)) of
             Inl e \<Rightarrow> (w1\<lparr>console := console w1 @ [ApiGetError ep e]\<rparr>, Inl e)
           | Inr r \<Rightarrow> (w1, Inr r)))"

definition ApiService_post ::
  "'b fetch_outcome \<Rightarrow> endpoint \<Rightarrow> js_object \<Rightarrow> world \<Rightarrow> world \<times> (error + 'b)" where
  "ApiService_post outcome ep data w =
     (case fetch outcome
             \<lparr>req_method = POST, req_endpoint = ep, req_query = [], req_body = Some data\<rparr> w of
        (w1, tried) \<Rightarrow>
          (case (case tried of
                   Inl e \<Rightarrow> Inl e
                 | Inr (status, json) \<Rightarrow>
                     (case json of None \<Rightarrow> Inl JsonSyntaxError | Some r \<Rightarrow> Inr r)) of
             Inl e \<Rightarrow> (w1\<lparr>console := console w1 @ [ApiPostError ep e]\<rparr>, Inl e)
           | Inr r \<Rightarrow> (w1, Inr r)))"

definition filters_object :: "filters \<Rightarrow> js_object" where
  "filters_object f =
     [(''search'', Str (search f)), (''sort'', Str (sort_f f)),
      (''location'', Str (location f)), (''minRating'', Num (minRating f))]"

definition getPhotos_params :: "int \<Rightarrow> filters \<Rightarrow> js_object" where
  "getPhotos_params page f =
     spread [(''page'', Num page), (''limit'', Num ITEMS_PER_PAGE)] (filters_object f)"

definition PhotoService_getPhotos ::
  "photos_reply fetch_outcome \<Rightarrow> int \<Rightarrow> filters \<Rightarrow> world
     \<Rightarrow> world \<times> (error + photos_reply)" where
  "PhotoService_getPhotos outcome page f w =
     ApiService_get outcome Photos (getPhotos_params page f) w"

section \<open>AuthService.getCurrentUser and the submissions\<close>

text \<open>
  \<open>JSON.parse\<close> is a parameter: it fails, or yields a user record, or yields a falsy
  value such as \<open>null\<close> (\<open>None\<close>). An empty stored string is falsy and is not parsed.
\<close>

definition getCurrentUser ::
  "(string \<Rightarrow> error + user option) \<Rightarrow> world \<Rightarrow> world \<times> (error + user option)" where
  "getCurrentUser JSON_parse w =
     (case currentUser w of
        Some u \<Rightarrow> (w, Inr (Some u))
      | None \<Rightarrow>
          (case localStorage w ''photoapp_user'' of
             None \<Rightarrow> (w, Inr None)
           | Some text \<Rightarrow>
               if text = [] then (w, Inr None)
               else (case JSON_parse text of
                       Inl e \<Rightarrow> (w, Inl e)
                     | Inr parsed \<Rightarrow> (w\<lparr>currentUser := parsed\<rparr>, Inr parsed))))"

definition addComment ::
  "(string \<Rightarrow> error + user option) \<Rightarrow> 'b fetch_outcome \<Rightarrow> jsval \<Rightarrow> string \<Rightarrow> world
     \<Rightarrow> world \<times> (error + 'b)" where
  "addComment JSON_parse outcome photoId comment w =
     (case getCurrentUser JSON_parse w of
        (w1, Inl e) \<Rightarrow> (w1, Inl e)
      | (w1, Inr None) \<Rightarrow> (w1, Inl (ErrorMsg ''User must be logged in to comment''))
      | (w1, Inr (Some u)) \<Rightarrow>
          ApiService_post outcome (PhotoComments photoId)
            [(''user_id'', Num (user_id u)), (''comment'', Str comment)] w1)"

definition ratePhoto ::
  "(string \<Rightarrow> error + user option) \<Rightarrow> 'b fetch_outcome \<Rightarrow> jsval \<Rightarrow> int \<Rightarrow> world
     \<Rightarrow> world \<times> (error + 'b)" where
  "ratePhoto JSON_parse outcome photoId rating w =
     (case getCurrentUser JSON_parse w of
        (w1, Inl e) \<Rightarrow> (w1, Inl e)
      | (w1, Inr None) \<Rightarrow> (w1, Inl (ErrorMsg ''User must be logged in to rate''))
      | (w1, Inr (Some u)) \<Rightarrow>
          ApiService_post outcome (PhotoRate photoId)
            [(''user_id'', Num (user_id u)), (''rating'', Num rating)] w1)"

section \<open>PhotoGallery\<close>

definition showNotification :: "string \<Rightarrow> string \<Rightarrow> dom_state \<Rightarrow> dom_state" where
  "showNotification message type d = d\<lparr>notification := Some (message, type)\<rparr>"

definition renderPhotos :: "world \<Rightarrow> error + world" where
  "renderPhotos w =
     (case galleryGrid (document w) of
        None \<Rightarrow> Inr w
      | Some container \<Rightarrow>
          (case photos (gallery w) of
             None \<Rightarrow> Inl TypeError
           | Some ps \<Rightarrow>
               Inr (w\<lparr>document := (document w)\<lparr>galleryGrid :=
                      Some (if length ps = 0 then NoPhotosNotice else Cards ps)\<rparr>\<rparr>)))"

definition renderPagination :: "world \<Rightarrow> world" where
  "renderPagination w =
     (case paginationEl (document w) of
        None \<Rightarrow> w
      | Some container \<Rightarrow>
          if totalPages (gallery w) \<le> 1
          then w\<lparr>document := (document w)\<lparr>paginationEl :=
                 Some (container\<lparr>display := ''none''\<rparr>)\<rparr>\<rparr>
          else w\<lparr>document := (document w)\<lparr>paginationEl :=
                 Some (container\<lparr>display := ''flex'',
                         innerHTML := createPagination (currentPage (gallery w))
                                        (totalPages (gallery w))\<rparr>)\<rparr>\<rparr>)"

text \<open>
  The right-hand sides of the two assignments of \<open>loadPhotos\<close>:
  \<open>response.photos || []\<close> and \<open>response.pagination?.pages || 1\<close>. A missing field and
  the number 0 are falsy.
\<close>

definition photos_or_empty :: "photos_reply \<Rightarrow> photo list" where
  "photos_or_empty response =
     (case reply_photos response of None \<Rightarrow> [] | Some ps \<Rightarrow> ps)"

definition pages_or_1 :: "photos_reply \<Rightarrow> int" where
  "pages_or_1 response =
     (case reply_pagination response of
        None \<Rightarrow> 1
      | Some p \<Rightarrow> (case pages p of None \<Rightarrow> 1 | Some n \<Rightarrow> if n = 0 then 1 else n))"

definition total_or_0 :: "pagination_info \<Rightarrow> int" where
  "total_or_0 p = (case total p of None \<Rightarrow> 0 | Some n \<Rightarrow> n)"

text \<open>
  The statistics statement of \<open>loadPhotos\<close>,
  \<open>document.getElementById('totalPhotos')?.textContent = response.pagination.total || 0\<close>,
  has an optional chain as the target of its assignment, which JavaScript does not
  accept as a target. What the statement does is therefore left open: it is a parameter
  \<open>stats\<close> of the gallery's operations that takes the value of the right-hand side and
  the page, and either fails or returns the page it leaves. Two instances are named for
  use in examples.
\<close>

type_synonym stats_stmt = "int \<Rightarrow> dom_state \<Rightarrow> error + dom_state"

definition stats_fails :: stats_stmt where
  "stats_fails n d = Inl AssignmentError"

definition stats_skipped :: stats_stmt where
  "stats_skipped n d = Inr d"

definition loadPhotos_catch :: "error \<Rightarrow> world \<Rightarrow> world \<times> (error + photos_reply)" where
  "loadPhotos_catch e w =
     (w\<lparr>console := console w @ [LoadPhotosError e],
        document := showNotification ''Failed to load photos'' ''error'' (document w)\<rparr>,
      Inl e)"

definition loadPhotos ::
  "stats_stmt \<Rightarrow> photos_reply fetch_outcome \<Rightarrow> world \<Rightarrow> world \<times> (error + photos_reply)" where
  "loadPhotos stats outcome w =
     (case PhotoService_getPhotos outcome (currentPage (gallery w)) (filters (gallery w)) w of
        (w1, Inl e) \<Rightarrow> loadPhotos_catch e w1
      | (w1, Inr response) \<Rightarrow>
          (let w2 = w1\<lparr>gallery := (gallery w1)\<lparr>photos := Some (photos_or_empty response)\<rparr>\<rparr>;
               w3 = w2\<lparr>gallery := (gallery w2)\<lparr>totalPages := pages_or_1 response\<rparr>\<rparr>
           in case renderPhotos w3 of
                Inl e \<Rightarrow> loadPhotos_catch e w3
              | Inr w4 \<Rightarrow>
                  (let w5 = renderPagination w4
                   in case reply_pagination response of
                        None \<Rightarrow> (w5, Inr response)
                      | Some p \<Rightarrow>
                          (case stats (total_or_0 p) (document w5) of
                             Inl e \<Rightarrow> loadPhotos_catch e w5
                           | Inr d \<Rightarrow> (w5\<lparr>document := d\<rparr>, Inr response)))))"

text \<open>
  \<open>searchPhotos\<close> and \<open>goToPage\<close> call \<open>loadPhotos\<close> without awaiting it and drop its
  result; the model runs the call to its end before going on, which leaves the same final
  state.
\<close>

definition searchPhotos ::
  "stats_stmt \<Rightarrow> photos_reply fetch_outcome \<Rightarrow> world \<Rightarrow> world" where
  "searchPhotos stats outcome w =
     (case globalSearch (document w) of
        None \<Rightarrow> w
      | Some input_value \<Rightarrow>
          (let w1 = w\<lparr>gallery := (gallery w)\<lparr>filters :=
                      (filters (gallery w))\<lparr>search := input_value\<rparr>\<rparr>\<rparr>;
               w2 = w1\<lparr>gallery := (gallery w1)\<lparr>currentPage := 1\<rparr>\<rparr>
           in fst (loadPhotos stats outcome w2)))"

definition goToPage ::
  "stats_stmt \<Rightarrow> photos_reply fetch_outcome \<Rightarrow> int \<Rightarrow> world \<Rightarrow> world" where
  "goToPage stats outcome page w =
     (if page \<ge> 1 \<and> page \<le> totalPages (gallery w)
      then (let w1 = w\<lparr>gallery := (gallery w)\<lparr>currentPage := page\<rparr>\<rparr>;
                w2 = fst (loadPhotos stats outcome w1)
            in w2\<lparr>document := (document w2)\<lparr>scroll := (0, 0)\<rparr>\<rparr>)
      else w)"

text \<open>The bound the specification puts on the two page fields.\<close>

definition page_inv :: "photo_gallery \<Rightarrow> bool" where
  "page_inv g = (1 \<le> currentPage g \<and> currentPage g \<le> totalPages g)"

section \<open>Example inputs\<close>

text \<open>Concrete values at which the theorems below are instantiated.\<close>

definition example_world :: world where
  "example_world =
     \<lparr>gallery = \<lparr>currentPage = 3, totalPages = 5,
                 filters = \<lparr>search = [], sort_f = ''newest'', location = ''all'',
                            minRating = 0\<rparr>,
                 photos = Some [Photo [(''id'', Num 31), (''title'', Str ''harbour'')]]\<rparr>,
      currentUser = None,
      localStorage = Map.empty,
      document = \<lparr>globalSearch = Some ''cats'', galleryGrid = Some Unrendered,
                  paginationEl = Some \<lparr>display = ''none'', innerHTML = []\<rparr>,
                  notification = None, scroll = (0, 640)\<rparr>,
      network = [],
      console = []\<rparr>"

definition example_reply :: photos_reply where
  "example_reply =
     \<lparr>reply_photos = Some [Photo [(''id'', Num 8), (''title'', Str ''dunes'')]],
      reply_pagination = Some \<lparr>pages = Some 2, total = Some 14\<rparr>\<rparr>"

definition bare_reply :: photos_reply where
  "bare_reply = \<lparr>reply_photos = None, reply_pagination = Some \<lparr>pages = None, total = None\<rparr>\<rparr>"

definition example_user :: user where
  "example_user = \<lparr>user_id = 7, username = ''ann'', role = ''consumer''\<rparr>"

definition example_parse :: "string \<Rightarrow> error + user option" where
  "example_parse text = (if text = ''ann'' then Inr (Some example_user) else Inl JsonSyntaxError)"

section \<open>The page window\<close>

lemma page_buttons_upto: "page_buttons c i e = map (\<lambda>p. NumBtn (p = c) p) [i..e]"
proof (induction c i e rule: page_buttons.induct)
  case (1 c i e)
  show ?case
  proof (cases "i \<le> e")
    case True
    then show ?thesis
      using "1" by (subst page_buttons.simps) (simp add: upto_rec1)
  next
    case False
    then show ?thesis
      by (subst page_buttons.simps) simp
  qed
qed

lemma window_pages_append: "window_pages (xs @ ys) = window_pages xs @ window_pages ys"
  by (induction xs rule: window_pages.induct) simp_all

lemma window_pages_buttons: "window_pages (map (\<lambda>p. NumBtn (p = c) p) ps) = ps"
  by (induction ps) simp_all

lemma window_pages_createPagination:
  "window_pages (createPagination c t) = [fst (page_window c t)..snd (page_window c t)]"
  by (simp add: createPagination_def window_pages_append page_buttons_upto
      window_pages_buttons split: prod.splits)

lemma page_window_bounds:
  assumes "page_window c t = (s, e)"
  shows "1 \<le> s" and "e \<le> t" and "1 \<le> t \<Longrightarrow> s \<le> e" and "t < 1 \<Longrightarrow> s = 1 \<and> e = t"
  using assms by (auto simp: page_window_def maxVisible_def Let_def split: if_splits)

lemma page_window_size:
  assumes "page_window c t = (s, e)" and "1 \<le> c" and "c \<le> t"
  shows "e - s + 1 = min 5 t" and "s \<le> c" and "c \<le> e"
  using assms by (auto simp: page_window_def maxVisible_def Let_def split: if_splits)

lemma page_window_centred:
  assumes "3 \<le> c" and "c \<le> t - 2"
  shows "page_window c t = (c - 2, c + 2)"
  using assms by (auto simp: page_window_def maxVisible_def Let_def)

text \<open>
  C3. For \<open>1 \<le> c \<le> t\<close> and the window size 5, the numbered buttons that
  \<open>createPagination c t\<close> emits are the pages \<open>start..end\<close>, with
  \<open>start = max(1, c - floor(5/2))\<close>, \<open>end = min(t, start + 5 - 1)\<close> and \<open>start\<close>
  recomputed as \<open>max(1, end - 5 + 1)\<close> when \<open>end - start + 1 < 5\<close>. There are exactly
  \<open>min(5, t)\<close> of them, \<open>c\<close> is one of them, and \<open>c\<close> is the middle one whenever two
  pages exist on each side of it. For \<open>t = 20, c = 10\<close> the window is 8..12, for
  \<open>t = 3, c = 1\<close> it is 1..3.
\<close>

theorem C3_pagination_window:
  "(1 \<le> c \<and> c \<le> t \<longrightarrow>
     (let start0 = max 1 (c - 5 div 2);
          e = min t (start0 + 5 - 1);
          s = (if e - start0 + 1 < 5 then max 1 (e - 5 + 1) else start0)
      in window_pages (createPagination c t) = [s..e]
         \<and> int (length (window_pages (createPagination c t))) = min 5 t
         \<and> c \<in> set (window_pages (createPagination c t))
         \<and> (3 \<le> c \<and> c \<le> t - 2 \<longrightarrow>
              window_pages (createPagination c t) = [c - 2, c - 1, c, c + 1, c + 2])))
   \<and> window_pages (createPagination 10 20) = [8, 9, 10, 11, 12]
   \<and> window_pages (createPagination 1 3) = [1, 2, 3]"
proof (intro conjI impI)
  assume range: "1 \<le> c \<and> c \<le> t"
  define start0 where "start0 = max 1 (c - 5 div 2)"
  define e where "e = min t (start0 + 5 - 1)"
  define s where "s = (if e - start0 + 1 < 5 then max 1 (e - 5 + 1) else start0)"
  have w: "page_window c t = (s, e)"
    by (simp add: page_window_def maxVisible_def Let_def s_def e_def start0_def)
  have pages: "window_pages (createPagination c t) = [s..e]"
    using w by (simp add: window_pages_createPagination)
  have size: "e - s + 1 = min 5 t" and mem: "s \<le> c" "c \<le> e"
    using page_window_size [OF w] range by simp_all
  have len: "int (length [s..e]) = min 5 t"
    using size range by simp
  have centred: "[s..e] = [c - 2, c - 1, c, c + 1, c + 2]" if "3 \<le> c \<and> c \<le> t - 2"
  proof -
    have "s = c - 2" and "e = c + 2"
      using page_window_centred [of c t] that w by simp_all
    then show ?thesis
      by (simp add: upto_rec1)
  qed
  have "window_pages (createPagination c t) = [s..e]
        \<and> int (length (window_pages (createPagination c t))) = min 5 t
        \<and> c \<in> set (window_pages (createPagination c t))
        \<and> (3 \<le> c \<and> c \<le> t - 2 \<longrightarrow>
             window_pages (createPagination c t) = [c - 2, c - 1, c, c + 1, c + 2])"
    unfolding pages using len mem centred by simp
  then show "let start0 = max 1 (c - 5 div 2);
            e = min t (start0 + 5 - 1);
            s = (if e - start0 + 1 < 5 then max 1 (e - 5 + 1) else start0)
        in window_pages (createPagination c t) = [s..e]
           \<and> int (length (window_pages (createPagination c t))) = min 5 t
           \<and> c \<in> set (window_pages (createPagination c t))
           \<and> (3 \<le> c \<and> c \<le> t - 2 \<longrightarrow>
                window_pages (createPagination c t) = [c - 2, c - 1, c, c + 1, c + 2])"
    unfolding Let_def s_def e_def start0_def .
next
  show "window_pages (createPagination 10 20) = [8, 9, 10, 11, 12]"
    by (simp add: window_pages_createPagination page_window_def maxVisible_def upto_rec1)
next
  show "window_pages (createPagination 1 3) = [1, 2, 3]"
    by (simp add: window_pages_createPagination page_window_def maxVisible_def upto_rec1)
qed

theorem C3_pagination_window_witness:
  "(1::int) \<le> 7 \<and> (7::int) \<le> 9
   \<and> window_pages (createPagination 7 9) = [5, 6, 7, 8, 9]
   \<and> length (window_pages (createPagination 7 9)) = 5
   \<and> window_pages (createPagination 2 3) = [1, 2, 3]"
  using C3_pagination_window [of 7 9] C3_pagination_window [of 2 3]
  by (simp add: upto_rec1)

section \<open>Edge buttons and ellipses\<close>

lemma takeWhile_until_NumBtn:
  assumes "\<forall>x \<in> set xs. \<not> is_NumBtn x"
  shows "takeWhile (\<lambda>e. \<not> is_NumBtn e) (xs @ NumBtn a p # ys) = xs"
  using assms by (induction xs) simp_all

lemma takeWhile_no_NumBtn:
  assumes "\<forall>x \<in> set xs. \<not> is_NumBtn x"
  shows "takeWhile (\<lambda>e. \<not> is_NumBtn e) xs = xs"
  using assms by (induction xs) simp_all

lemma page_buttons_first:
  assumes "s \<le> e"
  shows "page_buttons c s e = NumBtn (s = c) s # page_buttons c (s + 1) e"
  using assms by (subst page_buttons.simps) simp

lemma page_buttons_last:
  assumes "s \<le> e"
  shows "page_buttons c s e = page_buttons c s (e - 1) @ [NumBtn (e = c) e]"
  using assms by (simp add: page_buttons_upto upto_rec2)

lemma before_window_createPagination:
  assumes "page_window c t = (s, e)"
  shows "before_window (createPagination c t) =
           (if s \<le> e
            then PrevBtn (c = 1) (c - 1)
                 # (if s > 1 then EdgeBtn 1 # (if s > 2 then [Dots] else []) else [])
            else createPagination c t)"
proof (cases "s \<le> e")
  case True
  let ?L = "PrevBtn (c = 1) (c - 1)
            # (if s > 1 then EdgeBtn 1 # (if s > 2 then [Dots] else []) else [])"
  have no: "\<forall>x \<in> set ?L. \<not> is_NumBtn x"
    by auto
  have "createPagination c t = ?L @ NumBtn (s = c) s # (page_buttons c (s + 1) e
          @ (if e < t then (if e < t - 1 then [Dots] else []) @ [EdgeBtn t] else [])
          @ [NextBtn (c = t) (c + 1)])"
    using assms True by (simp add: createPagination_def page_buttons_first)
  then have "before_window (createPagination c t) = ?L"
    unfolding before_window_def using takeWhile_until_NumBtn [OF no] by simp
  then show ?thesis
    using True by simp
next
  case False
  then have empty: "page_buttons c s e = []"
    by (subst page_buttons.simps) simp
  have "\<forall>x \<in> set (createPagination c t). \<not> is_NumBtn x"
    using assms empty by (auto simp: createPagination_def)
  then show ?thesis
    using False by (simp add: before_window_def takeWhile_no_NumBtn)
qed

lemma after_window_createPagination:
  assumes "page_window c t = (s, e)"
  shows "after_window (createPagination c t) =
           (if s \<le> e
            then (if e < t then (if e < t - 1 then [Dots] else []) @ [EdgeBtn t] else [])
                 @ [NextBtn (c = t) (c + 1)]
            else createPagination c t)"
proof (cases "s \<le> e")
  case True
  let ?R = "(if e < t then (if e < t - 1 then [Dots] else []) @ [EdgeBtn t] else [])
            @ [NextBtn (c = t) (c + 1)]"
  let ?F = "PrevBtn (c = 1) (c - 1)
            # (if s > 1 then EdgeBtn 1 # (if s > 2 then [Dots] else []) else [])
            @ page_buttons c s (e - 1)"
  have no: "\<forall>x \<in> set (rev ?R). \<not> is_NumBtn x"
    by auto
  have "createPagination c t = ?F @ NumBtn (e = c) e # ?R"
    using assms True by (simp add: createPagination_def page_buttons_last)
  then have "rev (createPagination c t) = rev ?R @ NumBtn (e = c) e # rev ?F"
    by simp
  then have "takeWhile (\<lambda>e. \<not> is_NumBtn e) (rev (createPagination c t)) = rev ?R"
    using takeWhile_until_NumBtn [OF no] by simp
  then have "after_window (createPagination c t) = ?R"
    unfolding after_window_def by (simp del: rev_append rev.simps)
  then show ?thesis
    using True by simp
next
  case False
  then have empty: "page_buttons c s e = []"
    by (subst page_buttons.simps) simp
  have "\<forall>x \<in> set (createPagination c t). \<not> is_NumBtn x"
    using assms empty by (auto simp: createPagination_def)
  then have "takeWhile (\<lambda>e. \<not> is_NumBtn e) (rev (createPagination c t))
             = rev (createPagination c t)"
    by (intro takeWhile_no_NumBtn) simp
  then show ?thesis
    using False by (simp only: after_window_def rev_rev_ident if_False)
qed

text \<open>
  C5, as the code has it. For every current page \<open>c\<close> and page count \<open>t\<close>, with
  \<open>start..end\<close> the window: the button for page 1 stands before the window exactly
  when \<open>start > 1\<close>, and an ellipsis stands there exactly when \<open>start > 2\<close>; the button
  for page \<open>t\<close> stands after the window exactly when \<open>end < t\<close>, and an ellipsis stands
  there exactly when \<open>end < t - 1\<close>.
\<close>

theorem C5_edge_buttons:
  "(EdgeBtn 1 \<in> set (before_window (createPagination c t)))
      = (fst (page_window c t) > 1)
   \<and> (Dots \<in> set (before_window (createPagination c t)))
      = (fst (page_window c t) > 2)
   \<and> (EdgeBtn t \<in> set (after_window (createPagination c t)))
      = (snd (page_window c t) < t)
   \<and> (Dots \<in> set (after_window (createPagination c t)))
      = (snd (page_window c t) < t - 1)"
proof -
  obtain s e where w: "page_window c t = (s, e)"
    by (cases "page_window c t")
  show ?thesis
  proof (cases "s \<le> e")
    case True
    then show ?thesis
      using w by (auto simp: before_window_createPagination [OF w]
          after_window_createPagination [OF w])
  next
    case False
    then have small: "t < 1"
      using page_window_bounds(3) [OF w] by linarith
    then have se: "s = 1" "e = t"
      using page_window_bounds(4) [OF w] by simp_all
    have "page_buttons c s e = []"
      using False by (subst page_buttons.simps) simp
    then have "createPagination c t = [PrevBtn (c = 1) (c - 1), NextBtn (c = t) (c + 1)]"
      using w se by (simp add: createPagination_def)
    then show ?thesis
      using w se small False by (simp add: before_window_def after_window_def)
  qed
qed

text \<open>
  C5 as the specification words it fails: with 20 pages and the current page 4 the window
  is 2..6, so the button for page 1 is shown (\<open>start > 1\<close>), but no ellipsis goes with
  it.
\<close>

theorem C5_edge_buttons_counterexample:
  "\<not> ((EdgeBtn 1 \<in> set (before_window (createPagination 4 20))
         \<and> Dots \<in> set (before_window (createPagination 4 20)))
        = (fst (page_window 4 20) > 1))"
proof -
  have w: "page_window 4 20 = (2, 6)"
    by (simp add: page_window_def maxVisible_def)
  show ?thesis
    by (simp add: before_window_createPagination [OF w] w)
qed

section \<open>Requests and the gallery's fields\<close>

lemma getPhotos_params_list:
  "getPhotos_params page f =
     [(''page'', Num page), (''limit'', Num 12), (''search'', Str (search f)),
      (''sort'', Str (sort_f f)), (''location'', Str (location f)),
      (''minRating'', Num (minRating f))]"
  by (simp add: getPhotos_params_def spread_def filters_object_def ITEMS_PER_PAGE_def)

lemma loadPhotos_network:
  "network (fst (loadPhotos stats outcome w)) =
     network w @ [\<lparr>req_method = GET, req_endpoint = Photos,
                   req_query = getPhotos_params (currentPage (gallery w)) (filters (gallery w)),
                   req_body = None\<rparr>]"
  by (auto simp: loadPhotos_def PhotoService_getPhotos_def ApiService_get_def fetch_def
      loadPhotos_catch_def renderPhotos_def renderPagination_def Let_def
      split: fetch_outcome.splits option.splits sum.splits prod.splits)

lemma loadPhotos_rejected:
  "loadPhotos stats Rejected w =
     (w\<lparr>network := network w @ [\<lparr>req_method = GET, req_endpoint = Photos,
            req_query = getPhotos_params (currentPage (gallery w)) (filters (gallery w)),
            req_body = None\<rparr>],
        console := console w @ [ApiGetError Photos NetworkFailure,
                                LoadPhotosError NetworkFailure],
        document := showNotification ''Failed to load photos'' ''error'' (document w)\<rparr>,
      Inl NetworkFailure)"
  by (simp add: loadPhotos_def PhotoService_getPhotos_def ApiService_get_def fetch_def
      loadPhotos_catch_def)

lemma loadPhotos_not_ok:
  assumes "\<not> response_ok status"
  shows "loadPhotos stats (Responded status json) w =
     (w\<lparr>network := network w @ [\<lparr>req_method = GET, req_endpoint = Photos,
            req_query = getPhotos_params (currentPage (gallery w)) (filters (gallery w)),
            req_body = None\<rparr>],
        console := console w @ [ApiGetError Photos (HttpError status),
                                LoadPhotosError (HttpError status)],
        document := showNotification ''Failed to load photos'' ''error'' (document w)\<rparr>,
      Inl (HttpError status))"
  using assms
  by (simp add: loadPhotos_def PhotoService_getPhotos_def ApiService_get_def fetch_def
      loadPhotos_catch_def)

lemma loadPhotos_not_json:
  assumes "response_ok status"
  shows "loadPhotos stats (Responded status None) w =
     (w\<lparr>network := network w @ [\<lparr>req_method = GET, req_endpoint = Photos,
            req_query = getPhotos_params (currentPage (gallery w)) (filters (gallery w)),
            req_body = None\<rparr>],
        console := console w @ [ApiGetError Photos JsonSyntaxError,
                                LoadPhotosError JsonSyntaxError],
        document := showNotification ''Failed to load photos'' ''error'' (document w)\<rparr>,
      Inl JsonSyntaxError)"
  using assms
  by (simp add: loadPhotos_def PhotoService_getPhotos_def ApiService_get_def fetch_def
      loadPhotos_catch_def)

lemma loadPhotos_gallery_ok:
  assumes "response_ok status"
  shows "gallery (fst (loadPhotos stats (Responded status (Some r)) w)) =
           (gallery w)\<lparr>photos := Some (photos_or_empty r), totalPages := pages_or_1 r\<rparr>"
  using assms
  by (auto simp: loadPhotos_def PhotoService_getPhotos_def ApiService_get_def fetch_def
      loadPhotos_catch_def renderPhotos_def renderPagination_def Let_def
      split: option.splits sum.splits)

section \<open>goToPage\<close>

text \<open>
  C1. For every integer \<open>n\<close> with \<open>1 \<le> n \<le> totalPages\<close>, \<open>goToPage(n)\<close> sets
  \<open>currentPage\<close> to \<open>n\<close> and hands exactly one request to \<open>fetch\<close>, a \<open>GET /photos\<close>
  whose \<open>page\<close> parameter is \<open>n\<close>. For every other \<open>n\<close> it changes nothing at all, so
  \<open>currentPage\<close>, \<open>filters\<close>, \<open>photos\<close> and \<open>totalPages\<close> keep their values and no
  request is issued.
\<close>

theorem C1_goToPage:
  "(1 \<le> n \<and> n \<le> totalPages (gallery w) \<longrightarrow>
      currentPage (gallery (goToPage stats outcome n w)) = n
      \<and> network (goToPage stats outcome n w) =
          network w @ [\<lparr>req_method = GET, req_endpoint = Photos,
                        req_query = getPhotos_params n (filters (gallery w)),
                        req_body = None\<rparr>]
      \<and> map_of (getPhotos_params n (filters (gallery w))) ''page'' = Some (Num n))
   \<and> (\<not> (1 \<le> m \<and> m \<le> totalPages (gallery w)) \<longrightarrow>
        goToPage stats outcome m w = w)"
proof (intro conjI impI)
  assume range: "1 \<le> n \<and> n \<le> totalPages (gallery w)"
  let ?w1 = "w\<lparr>gallery := (gallery w)\<lparr>currentPage := n\<rparr>\<rparr>"
  have go: "goToPage stats outcome n w =
              (fst (loadPhotos stats outcome ?w1))
                \<lparr>document := (document (fst (loadPhotos stats outcome ?w1)))\<lparr>scroll := (0, 0)\<rparr>\<rparr>"
    using range by (simp add: goToPage_def Let_def)
  have "currentPage (gallery (fst (loadPhotos stats outcome ?w1))) = n"
  proof (cases outcome)
    case Rejected
    then show ?thesis
      by (simp add: loadPhotos_rejected)
  next
    case (Responded status json)
    show ?thesis
    proof (cases "response_ok status")
      case False
      then show ?thesis
        using Responded by (simp add: loadPhotos_not_ok)
    next
      case True
      then show ?thesis
        using Responded
        by (cases json) (simp_all add: loadPhotos_not_json loadPhotos_gallery_ok)
    qed
  qed
  then show "currentPage (gallery (goToPage stats outcome n w)) = n"
    by (simp add: go)
  show "network (goToPage stats outcome n w) =
          network w @ [\<lparr>req_method = GET, req_endpoint = Photos,
                        req_query = getPhotos_params n (filters (gallery w)),
                        req_body = None\<rparr>]"
    by (simp add: go loadPhotos_network)
  show "map_of (getPhotos_params n (filters (gallery w))) ''page'' = Some (Num n)"
    by (simp add: getPhotos_params_list)
next
  assume "\<not> (1 \<le> m \<and> m \<le> totalPages (gallery w))"
  then show "goToPage stats outcome m w = w"
    by (auto simp: goToPage_def)
qed

theorem C1_goToPage_witness:
  "(1::int) \<le> 4 \<and> 4 \<le> totalPages (gallery example_world)
   \<and> currentPage (gallery (goToPage stats_fails (Responded 200 (Some example_reply)) 4
        example_world)) = 4
   \<and> network (goToPage stats_fails (Responded 200 (Some example_reply)) 4 example_world) =
        [\<lparr>req_method = GET, req_endpoint = Photos,
          req_query = [(''page'', Num 4), (''limit'', Num 12), (''search'', Str []),
                       (''sort'', Str ''newest''), (''location'', Str ''all''),
                       (''minRating'', Num 0)],
          req_body = None\<rparr>]
   \<and> \<not> ((1::int) \<le> 6 \<and> 6 \<le> totalPages (gallery example_world))
   \<and> goToPage stats_fails (Responded 200 (Some example_reply)) 6 example_world
        = example_world"
  using C1_goToPage [of 4 example_world stats_fails "Responded 200 (Some example_reply)" 6]
  by (simp add: example_world_def getPhotos_params_list)

section \<open>loadPhotos\<close>

text \<open>
  C2. Whatever the state before the call: when the request of \<open>loadPhotos\<close> fails, because
  \<open>fetch\<close> rejects or because the response's status is not a success, the gallery's
  \<open>currentPage\<close>, \<open>filters\<close>, \<open>photos\<close> and \<open>totalPages\<close> are afterwards what they were,
  the error is thrown on to the caller, and the notification "Failed to load photos" of
  type "error" is shown.
\<close>

theorem C2_failed_fetch:
  assumes "outcome = Rejected \<or> outcome = Responded status json \<and> \<not> response_ok status"
  shows "gallery (fst (loadPhotos stats outcome w)) = gallery w
         \<and> currentPage (gallery (fst (loadPhotos stats outcome w))) = currentPage (gallery w)
         \<and> filters (gallery (fst (loadPhotos stats outcome w))) = filters (gallery w)
         \<and> photos (gallery (fst (loadPhotos stats outcome w))) = photos (gallery w)
         \<and> totalPages (gallery (fst (loadPhotos stats outcome w))) = totalPages (gallery w)
         \<and> snd (loadPhotos stats outcome w) =
             Inl (if outcome = Rejected then NetworkFailure else HttpError status)
         \<and> notification (document (fst (loadPhotos stats outcome w))) =
             Some (''Failed to load photos'', ''error'')"
  using assms
proof
  assume "outcome = Rejected"
  then show ?thesis
    by (simp add: loadPhotos_rejected showNotification_def)
next
  assume "outcome = Responded status json \<and> \<not> response_ok status"
  then show ?thesis
    by (simp add: loadPhotos_not_ok showNotification_def)
qed

theorem C2_failed_fetch_witness:
  "gallery (fst (loadPhotos stats_skipped Rejected example_world)) = gallery example_world
   \<and> snd (loadPhotos stats_skipped Rejected example_world) = Inl NetworkFailure
   \<and> \<not> response_ok 503
   \<and> gallery (fst (loadPhotos stats_skipped (Responded 503 (Some example_reply)) example_world))
       = gallery example_world
   \<and> snd (loadPhotos stats_skipped (Responded 503 (Some example_reply)) example_world)
       = Inl (HttpError 503)
   \<and> notification (document
         (fst (loadPhotos stats_skipped (Responded 503 (Some example_reply)) example_world)))
       = Some (''Failed to load photos'', ''error'')"
  using C2_failed_fetch [of Rejected 0 None stats_skipped example_world]
    C2_failed_fetch [of "Responded 503 (Some example_reply)" 503 "Some example_reply"
      stats_skipped example_world]
  by (simp add: response_ok_def)

text \<open>
  C10. Whatever the state before the call and whatever the body of a successful response,
  \<open>loadPhotos\<close> changes no field of the gallery other than \<open>photos\<close> and \<open>totalPages\<close>:
  \<open>currentPage\<close> and the filters (search, sort, location, minRating) stay. A body
  without \<open>photos\<close> makes the photo list empty, a body without \<open>pagination.pages\<close> makes
  \<open>totalPages\<close> 1.
\<close>

theorem C10_successful_fetch_frame:
  assumes "response_ok status"
  shows "currentPage (gallery (fst (loadPhotos stats (Responded status (Some r)) w)))
           = currentPage (gallery w)
         \<and> filters (gallery (fst (loadPhotos stats (Responded status (Some r)) w)))
             = filters (gallery w)
         \<and> gallery (fst (loadPhotos stats (Responded status (Some r)) w)) =
             (gallery w)\<lparr>photos := photos (gallery (fst (loadPhotos stats
                                        (Responded status (Some r)) w))),
                         totalPages := totalPages (gallery (fst (loadPhotos stats
                                        (Responded status (Some r)) w)))\<rparr>
         \<and> (reply_photos r = None \<longrightarrow>
               photos (gallery (fst (loadPhotos stats (Responded status (Some r)) w)))
                 = Some [])
         \<and> ((case reply_pagination r of None \<Rightarrow> True | Some p \<Rightarrow> pages p = None) \<longrightarrow>
               totalPages (gallery (fst (loadPhotos stats (Responded status (Some r)) w)))
                 = 1)"
  by (auto simp: loadPhotos_gallery_ok [OF assms] photos_or_empty_def pages_or_1_def
      split: option.splits)

theorem C10_successful_fetch_frame_witness:
  "response_ok 200
   \<and> reply_photos bare_reply = None
   \<and> (case reply_pagination bare_reply of None \<Rightarrow> True | Some p \<Rightarrow> pages p = None)
   \<and> currentPage (gallery (fst (loadPhotos stats_fails (Responded 200 (Some bare_reply))
        example_world))) = 3
   \<and> search (filters (gallery (fst (loadPhotos stats_fails (Responded 200 (Some bare_reply))
        example_world)))) = []
   \<and> photos (gallery (fst (loadPhotos stats_fails (Responded 200 (Some bare_reply))
        example_world))) = Some []
   \<and> totalPages (gallery (fst (loadPhotos stats_fails (Responded 200 (Some bare_reply))
        example_world))) = 1"
proof -
  have ok: "response_ok 200"
    by (simp add: response_ok_def)
  show ?thesis
    using C10_successful_fetch_frame [OF ok, of stats_fails bare_reply example_world]
    by (simp add: ok bare_reply_def example_world_def)
qed

section \<open>searchPhotos\<close>

text \<open>
  C6. Whatever the current page was, and for every search text \<open>x\<close> held by the search
  input: \<open>searchPhotos\<close> sets \<open>filters.search\<close> to \<open>x\<close>, sets \<open>currentPage\<close> to 1 and
  refetches, issuing one \<open>GET /photos\<close> for page 1 with the new search text.
\<close>

theorem C6_searchPhotos:
  assumes "globalSearch (document w) = Some x"
  shows "search (filters (gallery (searchPhotos stats outcome w))) = x
         \<and> currentPage (gallery (searchPhotos stats outcome w)) = 1
         \<and> network (searchPhotos stats outcome w) =
             network w @ [\<lparr>req_method = GET, req_endpoint = Photos,
                           req_query = getPhotos_params 1 ((filters (gallery w))\<lparr>search := x\<rparr>),
                           req_body = None\<rparr>]"
proof -
  let ?w2 = "w\<lparr>gallery := (gallery w)\<lparr>filters := (filters (gallery w))\<lparr>search := x\<rparr>,
                                        currentPage := 1\<rparr>\<rparr>"
  have run: "searchPhotos stats outcome w = fst (loadPhotos stats outcome ?w2)"
    using assms by (simp add: searchPhotos_def Let_def)
  have kept: "currentPage (gallery (fst (loadPhotos stats outcome ?w2))) = 1
              \<and> filters (gallery (fst (loadPhotos stats outcome ?w2)))
                  = (filters (gallery w))\<lparr>search := x\<rparr>"
  proof (cases outcome)
    case Rejected
    then show ?thesis
      by (simp add: loadPhotos_rejected)
  next
    case (Responded status json)
    show ?thesis
    proof (cases "response_ok status")
      case False
      then show ?thesis
        using Responded by (simp add: loadPhotos_not_ok)
    next
      case True
      then show ?thesis
        using Responded
        by (cases json) (simp_all add: loadPhotos_not_json loadPhotos_gallery_ok)
    qed
  qed
  show ?thesis
    using kept by (simp add: run loadPhotos_network)
qed

theorem C6_searchPhotos_witness:
  "globalSearch (document example_world) = Some ''cats''
   \<and> currentPage (gallery example_world) = 3
   \<and> search (filters (gallery (searchPhotos stats_fails (Responded 200 (Some example_reply))
        example_world))) = ''cats''
   \<and> currentPage (gallery (searchPhotos stats_fails (Responded 200 (Some example_reply))
        example_world)) = 1
   \<and> network (searchPhotos stats_fails (Responded 200 (Some example_reply)) example_world) =
        [\<lparr>req_method = GET, req_endpoint = Photos,
          req_query = [(''page'', Num 1), (''limit'', Num 12), (''search'', Str ''cats''),
                       (''sort'', Str ''newest''), (''location'', Str ''all''),
                       (''minRating'', Num 0)],
          req_body = None\<rparr>]"
proof -
  have input: "globalSearch (document example_world) = Some ''cats''"
    by (simp add: example_world_def)
  show ?thesis
    using C6_searchPhotos [OF input, of stats_fails "Responded 200 (Some example_reply)"]
    by (simp add: example_world_def getPhotos_params_list)
qed

section \<open>Query parameters\<close>

text \<open>
  C7. The parameters of a photo request are a function of the page, the filters and the
  fixed page size alone: the request \<open>loadPhotos\<close> issues carries the parameters computed
  from \<open>currentPage\<close> and \<open>filters\<close>, whatever the rest of the state, the outcome of the
  request and the statistics statement. The parameters are always the six keys \<open>page\<close>,
  \<open>limit\<close> (12), \<open>search\<close>, \<open>sort\<close>, \<open>location\<close> and \<open>minRating\<close>, each with the value it
  has in the inputs; an empty search text is sent as the empty string.
\<close>

theorem C7_query_parameters:
  "map fst (getPhotos_params page f) =
     [''page'', ''limit'', ''search'', ''sort'', ''location'', ''minRating'']
   \<and> map_of (getPhotos_params page f) ''page'' = Some (Num page)
   \<and> map_of (getPhotos_params page f) ''limit'' = Some (Num 12)
   \<and> map_of (getPhotos_params page f) ''search'' = Some (Str (search f))
   \<and> map_of (getPhotos_params page f) ''sort'' = Some (Str (sort_f f))
   \<and> map_of (getPhotos_params page f) ''location'' = Some (Str (location f))
   \<and> map_of (getPhotos_params page f) ''minRating'' = Some (Num (minRating f))
   \<and> map_of (getPhotos_params page (f\<lparr>search := []\<rparr>)) ''search'' = Some (Str [])
   \<and> req_query (last (network (fst (loadPhotos stats outcome w)))) =
       getPhotos_params (currentPage (gallery w)) (filters (gallery w))"
  by (simp add: getPhotos_params_list loadPhotos_network)

section \<open>Comments and ratings\<close>

text \<open>
  C8. For every photo id, comment text and rating: when no current user can be found,
  none in \<open>appState\<close> and none (or an empty text) under \<open>photoapp_user\<close> in
  \<open>localStorage\<close>, \<open>addComment\<close> and \<open>ratePhoto\<close> each throw their "User must be logged
  in" error and leave everything as it was, so no request is issued. When
  \<open>getCurrentUser\<close> finds a user, each issues one POST whose body carries that user's id
  as \<open>user_id\<close>.
\<close>

theorem C8_submissions_need_user:
  "(currentUser w = None
      \<and> (localStorage w ''photoapp_user'' = None \<or> localStorage w ''photoapp_user'' = Some [])
      \<longrightarrow>
      addComment JSON_parse outcome photoId comment w
        = (w, Inl (ErrorMsg ''User must be logged in to comment''))
      \<and> ratePhoto JSON_parse outcome photoId rating w
        = (w, Inl (ErrorMsg ''User must be logged in to rate'')))
   \<and> (snd (getCurrentUser JSON_parse v) = Inr (Some u) \<longrightarrow>
        network (fst (addComment JSON_parse outcome photoId comment v)) =
          network v @ [\<lparr>req_method = POST, req_endpoint = PhotoComments photoId,
                        req_query = [],
                        req_body = Some [(''user_id'', Num (user_id u)),
                                         (''comment'', Str comment)]\<rparr>]
        \<and> network (fst (ratePhoto JSON_parse outcome photoId rating v)) =
          network v @ [\<lparr>req_method = POST, req_endpoint = PhotoRate photoId,
                        req_query = [],
                        req_body = Some [(''user_id'', Num (user_id u)),
                                         (''rating'', Num rating)]\<rparr>])"
proof (intro conjI impI)
  assume none: "currentUser w = None
      \<and> (localStorage w ''photoapp_user'' = None \<or> localStorage w ''photoapp_user'' = Some [])"
  then have "getCurrentUser JSON_parse w = (w, Inr None)"
    by (auto simp: getCurrentUser_def)
  then show "addComment JSON_parse outcome photoId comment w
               = (w, Inl (ErrorMsg ''User must be logged in to comment''))"
    and "ratePhoto JSON_parse outcome photoId rating w
               = (w, Inl (ErrorMsg ''User must be logged in to rate''))"
    by (simp_all add: addComment_def ratePhoto_def)
next
  assume found: "snd (getCurrentUser JSON_parse v) = Inr (Some u)"
  obtain v1 where v1: "getCurrentUser JSON_parse v = (v1, Inr (Some u))"
    using found by (cases "getCurrentUser JSON_parse v") simp
  have net: "network v1 = network v"
    using v1 by (auto simp: getCurrentUser_def split: option.splits if_splits sum.splits)
  show "network (fst (addComment JSON_parse outcome photoId comment v)) =
          network v @ [\<lparr>req_method = POST, req_endpoint = PhotoComments photoId,
                        req_query = [],
                        req_body = Some [(''user_id'', Num (user_id u)),
                                         (''comment'', Str comment)]\<rparr>]"
    using net
    by (auto simp: addComment_def v1 ApiService_post_def fetch_def
        split: fetch_outcome.splits option.splits)
  show "network (fst (ratePhoto JSON_parse outcome photoId rating v)) =
          network v @ [\<lparr>req_method = POST, req_endpoint = PhotoRate photoId,
                        req_query = [],
                        req_body = Some [(''user_id'', Num (user_id u)),
                                         (''rating'', Num rating)]\<rparr>]"
    using net
    by (auto simp: ratePhoto_def v1 ApiService_post_def fetch_def
        split: fetch_outcome.splits option.splits)
qed

theorem C8_submissions_need_user_witness:
  "currentUser example_world = None
   \<and> localStorage example_world ''photoapp_user'' = None
   \<and> addComment example_parse (Responded 201 (Some [(''success'', Num 1)])) (Num 31)
        ''lovely'' example_world
       = (example_world, Inl (ErrorMsg ''User must be logged in to comment''))
   \<and> ratePhoto example_parse (Responded 201 (Some [(''success'', Num 1)])) (Num 31)
        5 example_world
       = (example_world, Inl (ErrorMsg ''User must be logged in to rate''))
   \<and> snd (getCurrentUser example_parse
        (example_world\<lparr>localStorage := [''photoapp_user'' \<mapsto> ''ann'']\<rparr>))
       = Inr (Some example_user)
   \<and> network (fst (addComment example_parse (Responded 201 (Some [(''success'', Num 1)]))
        (Num 31) ''lovely'' (example_world\<lparr>localStorage := [''photoapp_user'' \<mapsto> ''ann'']\<rparr>)))
       = [\<lparr>req_method = POST, req_endpoint = PhotoComments (Num 31), req_query = [],
           req_body = Some [(''user_id'', Num 7), (''comment'', Str ''lovely'')]\<rparr>]
   \<and> network (fst (ratePhoto example_parse (Responded 201 (Some [(''success'', Num 1)]))
        (Num 31) 5 (example_world\<lparr>localStorage := [''photoapp_user'' \<mapsto> ''ann'']\<rparr>)))
       = [\<lparr>req_method = POST, req_endpoint = PhotoRate (Num 31), req_query = [],
           req_body = Some [(''user_id'', Num 7), (''rating'', Num 5)]\<rparr>]"
proof -
  have none: "currentUser example_world = None
              \<and> localStorage example_world ''photoapp_user'' = None"
    by (simp add: example_world_def)
  have found: "snd (getCurrentUser example_parse
                 (example_world\<lparr>localStorage := [''photoapp_user'' \<mapsto> ''ann'']\<rparr>))
               = Inr (Some example_user)"
    by (simp add: getCurrentUser_def example_world_def example_parse_def)
  have net: "network example_world = []" and uid: "user_id example_user = 7"
    by (simp_all add: example_world_def example_user_def)
  show ?thesis
    using C8_submissions_need_user [of example_world example_parse
        "Responded 201 (Some [(''success'', Num 1)])" "Num 31" "''lovely''" 5
        "example_world\<lparr>localStorage := [''photoapp_user'' \<mapsto> ''ann'']\<rparr>" example_user]
      none found
    by (simp add: net uid)
qed

section \<open>The bound on the current page\<close>

lemma loadPhotos_gallery_failed:
  assumes "failed = Rejected \<or> failed = Responded status json \<and> \<not> response_ok status
           \<or> failed = Responded status None"
  shows "gallery (fst (loadPhotos stats failed w)) = gallery w"
proof -
  consider "failed = Rejected" | j where "failed = Responded status j" "\<not> response_ok status"
    | "failed = Responded status None" "response_ok status"
    using assms by blast
  then show ?thesis
  proof cases
    case 1
    then show ?thesis by (simp add: loadPhotos_rejected)
  next
    case 2
    then show ?thesis by (simp add: loadPhotos_not_ok)
  next
    case 3
    then show ?thesis by (simp add: loadPhotos_not_json)
  qed
qed

lemma goToPage_gallery:
  assumes "1 \<le> n" and "n \<le> totalPages (gallery w)"
  shows "gallery (goToPage stats outcome n w) =
           gallery (fst (loadPhotos stats outcome (w\<lparr>gallery := (gallery w)\<lparr>currentPage := n\<rparr>\<rparr>)))"
  using assms by (simp add: goToPage_def Let_def)

lemma searchPhotos_gallery:
  assumes "globalSearch (document w) = Some x"
  shows "gallery (searchPhotos stats outcome w) =
           gallery (fst (loadPhotos stats outcome
             (w\<lparr>gallery := (gallery w)\<lparr>filters := (filters (gallery w))\<lparr>search := x\<rparr>,
                                        currentPage := 1\<rparr>\<rparr>)))"
  using assms by (simp add: searchPhotos_def Let_def)

text \<open>
  C4, as the code has it. The bound \<open>1 \<le> currentPage \<le> totalPages\<close> holds for the
  initial fields. A page request out of range changes nothing: it is rejected, not
  clamped. \<open>loadPhotos\<close>, \<open>goToPage\<close> and \<open>searchPhotos\<close> keep the bound whenever their
  request fails. When the request succeeds, the new \<open>totalPages\<close> is the page count of the
  response (1 when it is missing or 0) as it comes, and the bound holds afterwards exactly
  when that count is at least the current page: the page the gallery was on for
  \<open>loadPhotos\<close>, the requested page for \<open>goToPage\<close>, and 1 for \<open>searchPhotos\<close>.
\<close>

theorem C4_page_bound:
  "page_inv initial_gallery
   \<and> (\<not> (1 \<le> m \<and> m \<le> totalPages (gallery w)) \<longrightarrow> goToPage stats outcome m w = w)
   \<and> (page_inv (gallery w)
        \<and> (failed = Rejected \<or> failed = Responded bad json \<and> \<not> response_ok bad
            \<or> failed = Responded bad None) \<longrightarrow>
        page_inv (gallery (fst (loadPhotos stats failed w)))
        \<and> page_inv (gallery (goToPage stats failed k w))
        \<and> page_inv (gallery (searchPhotos stats failed w)))
   \<and> (page_inv (gallery w) \<and> response_ok status \<longrightarrow>
        page_inv (gallery (fst (loadPhotos stats (Responded status (Some r)) w)))
          = (currentPage (gallery w) \<le> pages_or_1 r)
        \<and> (1 \<le> n \<and> n \<le> totalPages (gallery w) \<longrightarrow>
             page_inv (gallery (goToPage stats (Responded status (Some r)) n w))
               = (n \<le> pages_or_1 r))
        \<and> (globalSearch (document w) = Some x \<longrightarrow>
             page_inv (gallery (searchPhotos stats (Responded status (Some r)) w))
               = (1 \<le> pages_or_1 r)))"
proof (intro conjI impI)
  show "page_inv initial_gallery"
    by (simp add: page_inv_def initial_gallery_def)
next
  assume "\<not> (1 \<le> m \<and> m \<le> totalPages (gallery w))"
  then show "goToPage stats outcome m w = w"
    by (auto simp: goToPage_def)
next
  assume h: "page_inv (gallery w)
        \<and> (failed = Rejected \<or> failed = Responded bad json \<and> \<not> response_ok bad
            \<or> failed = Responded bad None)"
  then have inv: "page_inv (gallery w)"
    and failed: "failed = Rejected \<or> failed = Responded bad json \<and> \<not> response_ok bad
                 \<or> failed = Responded bad None"
    by simp_all
  show "page_inv (gallery (fst (loadPhotos stats failed w)))"
    using inv by (simp add: loadPhotos_gallery_failed [OF failed])
  show "page_inv (gallery (goToPage stats failed k w))"
  proof (cases "1 \<le> k \<and> k \<le> totalPages (gallery w)")
    case True
    then show ?thesis
      by (simp add: goToPage_gallery loadPhotos_gallery_failed [OF failed] page_inv_def)
  next
    case False
    then have "goToPage stats failed k w = w"
      by (auto simp: goToPage_def)
    then show ?thesis
      using inv by simp
  qed
  show "page_inv (gallery (searchPhotos stats failed w))"
  proof (cases "globalSearch (document w)")
    case None
    then show ?thesis
      using inv by (simp add: searchPhotos_def)
  next
    case (Some x)
    then show ?thesis
      using inv
      by (simp add: searchPhotos_gallery loadPhotos_gallery_failed [OF failed] page_inv_def)
  qed
next
  assume h: "page_inv (gallery w) \<and> response_ok status"
  then show "page_inv (gallery (fst (loadPhotos stats (Responded status (Some r)) w)))
               = (currentPage (gallery w) \<le> pages_or_1 r)"
    by (auto simp: loadPhotos_gallery_ok page_inv_def)
next
  assume h: "page_inv (gallery w) \<and> response_ok status"
    and range: "1 \<le> n \<and> n \<le> totalPages (gallery w)"
  then show "page_inv (gallery (goToPage stats (Responded status (Some r)) n w))
               = (n \<le> pages_or_1 r)"
    by (simp add: goToPage_gallery loadPhotos_gallery_ok page_inv_def)
next
  assume h: "page_inv (gallery w) \<and> response_ok status"
    and input: "globalSearch (document w) = Some x"
  then show "page_inv (gallery (searchPhotos stats (Responded status (Some r)) w))
               = (1 \<le> pages_or_1 r)"
    by (simp add: searchPhotos_gallery loadPhotos_gallery_ok page_inv_def)
qed

theorem C4_page_bound_witness:
  "page_inv (gallery example_world)
   \<and> \<not> ((1::int) \<le> 6 \<and> 6 \<le> totalPages (gallery example_world))
   \<and> goToPage stats_fails Rejected 6 example_world = example_world
   \<and> page_inv (gallery (fst (loadPhotos stats_fails Rejected example_world)))
   \<and> page_inv (gallery (goToPage stats_fails Rejected 4 example_world))
   \<and> page_inv (gallery (searchPhotos stats_fails Rejected example_world))
   \<and> response_ok 200
   \<and> (1::int) \<le> 2 \<and> 2 \<le> totalPages (gallery example_world)
   \<and> pages_or_1 example_reply = 2
   \<and> page_inv (gallery (goToPage stats_fails (Responded 200 (Some example_reply)) 2
        example_world))
   \<and> globalSearch (document example_world) = Some ''cats''
   \<and> page_inv (gallery (searchPhotos stats_fails (Responded 200 (Some example_reply))
        example_world))"
proof -
  have facts: "page_inv (gallery example_world)" "totalPages (gallery example_world) = 5"
    "currentPage (gallery example_world) = 3" "response_ok 200"
    "pages_or_1 example_reply = 2" "globalSearch (document example_world) = Some ''cats''"
    by (simp_all add: page_inv_def example_world_def response_ok_def pages_or_1_def
        example_reply_def)
  show ?thesis
    using C4_page_bound [of 6 example_world stats_fails Rejected Rejected 0 None 4 200
        example_reply 2 "''cats''"]
    by (simp add: facts)
qed

text \<open>
  C4 as the specification words it fails: on page 3 of 5, a successful response that
  reports 2 pages leaves \<open>currentPage = 3\<close> above \<open>totalPages = 2\<close>, whichever way the
  statistics statement goes.
\<close>

theorem C4_page_bound_counterexample:
  "page_inv (gallery example_world)
   \<and> \<not> page_inv (gallery (fst (loadPhotos stats_fails (Responded 200 (Some example_reply))
          example_world)))
   \<and> \<not> page_inv (gallery (fst (loadPhotos stats_skipped (Responded 200 (Some example_reply))
          example_world)))"
proof -
  have ok: "response_ok 200"
    by (simp add: response_ok_def)
  show ?thesis
    by (simp add: loadPhotos_gallery_ok [OF ok] page_inv_def example_world_def
        example_reply_def pages_or_1_def)
qed

end
